theory Spec2Isabelle
  imports Complex_Main
begin

section \<open>The PID controller of PID\_most\_compact\_implementation\<close>

text \<open>
  The source is one Python class, \<^verbatim>\<open>PID\<close>, with a constructor and one method,
  \<^verbatim>\<open>Update\<close>. The object is a record, and the method takes the record and returns the
  updated one next to the returned correction.

  Two things of the source are not pure and are made explicit:
  \<^item> \<^verbatim>\<open>time.time()\<close>, read only when a timestamp argument is \<^verbatim>\<open>None\<close>: the value that the
    wall clock would give at the call is the first argument, \<open>clock\<close>;
  \<^item> the arithmetic, which can raise: \<^verbatim>\<open>de / dt\<close> raises \<^verbatim>\<open>ZeroDivisionError\<close> for a zero
    divisor, and an operation that mixes an int with a float raises \<^verbatim>\<open>OverflowError\<close> when
    the int is too large for a float. A result is a sum with the error on the left.

  The class is embedded twice. The first embedding reads the arithmetic exactly, over
  \<^typ>\<open>real\<close>: it has no rounding, no infinities and no NaN, and serves the properties that
  are about which branch is taken and which fields are assigned. The second embedding,
  whose names end in \<open>_f\<close>, computes as Python does: a number is an int or a binary64
  float, every float operation rounds to nearest, ties to even, and the properties whose
  truth depends on rounding, NaN or int arguments are settled there.
\<close>

datatype error = ZeroDivisionError | OverflowError

record PID =
  Kp :: real
  Ki :: real
  Kd :: real
  Cp :: real
  Ci :: real
  Cd :: real
  previous_time :: real
  previous_error :: real

definition truediv :: "real \<Rightarrow> real \<Rightarrow> error + real" where
  "truediv a b = (if b = 0 then Inl ZeroDivisionError else Inr (a / b))"

text \<open>
  \<^verbatim>\<open>
  def __init__(self, Kp, Ki, Kd, origin_time=None):
      if origin_time is None:
          origin_time = time.time()
      self.Kp = Kp; self.Ki = Ki; self.Kd = Kd
      self.Cp = 0.0; self.Ci = 0.0; self.Cd = 0.0
      self.previous_time = origin_time
      self.previous_error = 0.0
  \<close>
\<close>

definition PID_init :: "real \<Rightarrow> real \<Rightarrow> real \<Rightarrow> real \<Rightarrow> real option \<Rightarrow> PID" where
  "PID_init clock kp ki kd origin_time =
     (let origin_time = (case origin_time of None \<Rightarrow> clock | Some t \<Rightarrow> t)
      in \<lparr>Kp = kp, Ki = ki, Kd = kd, Cp = 0, Ci = 0, Cd = 0,
          previous_time = origin_time, previous_error = 0\<rparr>)"

text \<open>
  \<^verbatim>\<open>
  def Update(self, error, current_time=None):
      if current_time is None:
          current_time = time.time()
      dt = current_time - self.previous_time
      if dt <= 0.0:
          return 0
      de = error - self.previous_error
      self.Cp = error
      self.Ci += error * dt
      self.Cd = de / dt
      self.previous_time = current_time
      self.previous_error = error
      return ((self.Kp * self.Cp) + (self.Ki * self.Ci) + (self.Kd * self.Cd))
  \<close>
  The assignments are made in the order of the source, each on the record that the
  previous one left. A raise of the division is the result \<open>Inl\<close>.
\<close>

definition Update :: "real \<Rightarrow> PID \<Rightarrow> real \<Rightarrow> real option \<Rightarrow> error + (real \<times> PID)" where
  "Update clock self err current_time =
     (let current_time = (case current_time of None \<Rightarrow> clock | Some t \<Rightarrow> t);
          dt = current_time - previous_time self
      in if dt \<le> 0 then Inr (0, self)
         else
           let de = err - previous_error self;
               self = self\<lparr>Cp := err\<rparr>;
               self = self\<lparr>Ci := Ci self + err * dt\<rparr>
           in case truediv de dt of
                Inl x \<Rightarrow> Inl x
              | Inr q \<Rightarrow>
                  let self = self\<lparr>Cd := q\<rparr>;
                      self = self\<lparr>previous_time := current_time\<rparr>;
                      self = self\<lparr>previous_error := err\<rparr>
                  in Inr (Kp self * Cp self + Ki self * Ci self + Kd self * Cd self, self))"

subsection \<open>Sequences of calls\<close>

text \<open>
  A call is the wall-clock reading at the call, the error argument and the timestamp
  argument. \<open>run\<close> makes the calls one after the other on the same object and gives,
  for each call, the returned correction and the object as the call left it. A raise ends
  the run.
\<close>

type_synonym call = "real \<times> real \<times> real option"

fun run :: "PID \<Rightarrow> call list \<Rightarrow> error + (real \<times> PID) list" where
  "run self [] = Inr []"
| "run self ((clock, err, current_time) # cs) =
     (case Update clock self err current_time of
        Inl x \<Rightarrow> Inl x
      | Inr (out, self') \<Rightarrow>
          (case run self' cs of
             Inl x \<Rightarrow> Inl x
           | Inr rest \<Rightarrow> Inr ((out, self') # rest)))"

section \<open>The controller in Python's arithmetic\<close>

subsection \<open>Binary64 floats\<close>

text \<open>
  A float is a finite value, an infinity or NaN. A finite value is kept as the real number
  it denotes; the two zeros are not told apart (they compare equal, and no comparison of
  the source tells them apart). \<open>round_double\<close> rounds a real to the nearest binary64 value,
  ties to even: the spacing of the values around \<open>x\<close> is \<open>2 powi quantum x\<close>, which is
  \<open>2 powi (- 1074)\<close> below the smallest normal number and 52 binary places below the
  leading bit otherwise, and a result of magnitude \<open>2 ^ 1024\<close> or more is an infinity.
  \<open>norm_exp\<close> finds the position of the leading bit by halving or doubling, with fuel that
  covers the whole range between the two thresholds.
\<close>


datatype double = Fin real | PInf | NInf | NaN

definition rnd_even :: "real \<Rightarrow> int" where
  "rnd_even x =
     (let f = \<lfloor>x\<rfloor>; r = x - of_int f
      in if r < 1 / 2 then f else if 1 / 2 < r then f + 1 else if even f then f else f + 1)"

fun norm_exp :: "nat \<Rightarrow> real \<Rightarrow> int" where
  "norm_exp 0 x = 0"
| "norm_exp (Suc n) x =
     (if 2 \<le> x then norm_exp n (x / 2) + 1
      else if x < 1 then norm_exp n (2 * x) - 1
      else 0)"

definition max_limit :: real where
  "max_limit = 2 ^ 1024"

definition min_normal :: real where
  "min_normal = 2 powi (- 1022)"

definition quantum :: "real \<Rightarrow> int" where
  "quantum x =
     (if \<bar>x\<bar> < min_normal then - 1074
      else if max_limit \<le> \<bar>x\<bar> then 971
      else norm_exp 2100 \<bar>x\<bar> - 52)"

definition round_double :: "real \<Rightarrow> double" where
  "round_double x =
     (let q = quantum x;
          y = of_int (rnd_even (x / 2 powi q)) * 2 powi q
      in if max_limit \<le> y then PInf else if y \<le> - max_limit then NInf else Fin y)"

text \<open>
  The float operations of IEEE 754 as Python has them: NaN propagates, \<open>inf - inf\<close> and
  \<open>0 * inf\<close> are NaN, an overflow gives an infinity and does not raise, and every comparison
  with NaN is false. Only the division raises, for a zero divisor.
\<close>


fun fneg :: "double \<Rightarrow> double" where
  "fneg (Fin x) = Fin (- x)"
| "fneg PInf = NInf"
| "fneg NInf = PInf"
| "fneg NaN = NaN"

fun fadd :: "double \<Rightarrow> double \<Rightarrow> double" where
  "fadd NaN b = NaN"
| "fadd a NaN = NaN"
| "fadd PInf NInf = NaN"
| "fadd NInf PInf = NaN"
| "fadd PInf b = PInf"
| "fadd NInf b = NInf"
| "fadd a PInf = PInf"
| "fadd a NInf = NInf"
| "fadd (Fin x) (Fin y) = round_double (x + y)"

definition fsub :: "double \<Rightarrow> double \<Rightarrow> double" where
  "fsub a b = fadd a (fneg b)"

fun fsgn :: "double \<Rightarrow> int" where
  "fsgn (Fin x) = (if x < 0 then - 1 else if x = 0 then 0 else 1)"
| "fsgn PInf = 1"
| "fsgn NInf = - 1"
| "fsgn NaN = 0"

definition inf_of_sign :: "int \<Rightarrow> double" where
  "inf_of_sign s = (if s = 0 then NaN else if 0 < s then PInf else NInf)"

fun fmul :: "double \<Rightarrow> double \<Rightarrow> double" where
  "fmul NaN b = NaN"
| "fmul a NaN = NaN"
| "fmul (Fin x) (Fin y) = round_double (x * y)"
| "fmul a b = inf_of_sign (fsgn a * fsgn b)"

fun fdiv :: "double \<Rightarrow> double \<Rightarrow> error + double" where
  "fdiv a (Fin y) =
     (if y = 0 then Inl ZeroDivisionError
      else case a of
             Fin x \<Rightarrow> Inr (round_double (x / y))
           | NaN \<Rightarrow> Inr NaN
           | _ \<Rightarrow> Inr (inf_of_sign (fsgn a * fsgn (Fin y))))"
| "fdiv NaN b = Inr NaN"
| "fdiv a NaN = Inr NaN"
| "fdiv (Fin x) b = Inr (Fin 0)"
| "fdiv a b = Inr NaN"

fun fle :: "double \<Rightarrow> double \<Rightarrow> bool" where
  "fle NaN b = False"
| "fle a NaN = False"
| "fle NInf b = True"
| "fle a PInf = True"
| "fle PInf b = False"
| "fle a NInf = False"
| "fle (Fin x) (Fin y) = (x \<le> y)"

subsection \<open>Python numbers\<close>

text \<open>
  An argument or a field is an int or a float. Two ints are added, subtracted and
  multiplied exactly; when one operand is a float the other is converted, and the
  conversion of an int that rounds to \<open>2 ^ 1024\<close> or more raises \<^verbatim>\<open>OverflowError\<close>. The
  division \<^verbatim>\<open>/\<close> always gives a float: for two ints the correctly rounded quotient.
  \<open>py_le_zero\<close> is the comparison \<^verbatim>\<open>dt <= 0.0\<close>, \<open>float_lit\<close> the float that a decimal
  literal denotes.
\<close>


datatype pynum = PyInt int | PyFloat double

definition to_float :: "pynum \<Rightarrow> error + double" where
  "to_float v =
     (case v of
        PyFloat d \<Rightarrow> Inr d
      | PyInt n \<Rightarrow>
          (case round_double (of_int n) of
             Fin y \<Rightarrow> Inr (Fin y)
           | _ \<Rightarrow> Inl OverflowError))"

definition float_op :: "(double \<Rightarrow> double \<Rightarrow> error + double) \<Rightarrow> pynum \<Rightarrow> pynum \<Rightarrow> error + pynum" where
  "float_op f a b =
     (case to_float a of
        Inl x \<Rightarrow> Inl x
      | Inr x \<Rightarrow>
          (case to_float b of
             Inl y \<Rightarrow> Inl y
           | Inr y \<Rightarrow> (case f x y of Inl z \<Rightarrow> Inl z | Inr z \<Rightarrow> Inr (PyFloat z))))"

fun py_add :: "pynum \<Rightarrow> pynum \<Rightarrow> error + pynum" where
  "py_add (PyInt m) (PyInt n) = Inr (PyInt (m + n))"
| "py_add a b = float_op (\<lambda>x y. Inr (fadd x y)) a b"

fun py_sub :: "pynum \<Rightarrow> pynum \<Rightarrow> error + pynum" where
  "py_sub (PyInt m) (PyInt n) = Inr (PyInt (m - n))"
| "py_sub a b = float_op (\<lambda>x y. Inr (fsub x y)) a b"

fun py_mul :: "pynum \<Rightarrow> pynum \<Rightarrow> error + pynum" where
  "py_mul (PyInt m) (PyInt n) = Inr (PyInt (m * n))"
| "py_mul a b = float_op (\<lambda>x y. Inr (fmul x y)) a b"

fun py_truediv :: "pynum \<Rightarrow> pynum \<Rightarrow> error + pynum" where
  "py_truediv (PyInt m) (PyInt n) =
     (if n = 0 then Inl ZeroDivisionError
      else case round_double (of_int m / of_int n) of
             Fin y \<Rightarrow> Inr (PyFloat (Fin y))
           | _ \<Rightarrow> Inl OverflowError)"
| "py_truediv a b = float_op fdiv a b"

fun py_le_zero :: "pynum \<Rightarrow> bool" where
  "py_le_zero (PyInt n) = (n \<le> 0)"
| "py_le_zero (PyFloat d) = fle d (Fin 0)"


definition float_lit :: "real \<Rightarrow> pynum" where
  "float_lit x = PyFloat (round_double x)"

subsection \<open>The class\<close>

text \<open>
  The constructor and \<^verbatim>\<open>Update\<close> as above, line by line, on Python numbers. \<open>raising\<close>
  passes a result on or ends the call with the error; the fields assigned before a raise
  are not returned, as no property here looks at the object after a raise. The early
  return gives the int \<^verbatim>\<open>0\<close> of the source.
\<close>


record PID_f =
  Kp_f :: pynum
  Ki_f :: pynum
  Kd_f :: pynum
  Cp_f :: pynum
  Ci_f :: pynum
  Cd_f :: pynum
  previous_time_f :: pynum
  previous_error_f :: pynum

definition PID_init_f :: "double \<Rightarrow> pynum \<Rightarrow> pynum \<Rightarrow> pynum \<Rightarrow> pynum option \<Rightarrow> PID_f" where
  "PID_init_f clock kp ki kd origin_time =
     (let origin_time = (case origin_time of None \<Rightarrow> PyFloat clock | Some t \<Rightarrow> t)
      in \<lparr>Kp_f = kp, Ki_f = ki, Kd_f = kd,
          Cp_f = PyFloat (Fin 0), Ci_f = PyFloat (Fin 0), Cd_f = PyFloat (Fin 0),
          previous_time_f = origin_time, previous_error_f = PyFloat (Fin 0)\<rparr>)"

definition raising :: "error + 'a \<Rightarrow> ('a \<Rightarrow> error + 'b) \<Rightarrow> error + 'b" where
  "raising r k = (case r of Inl x \<Rightarrow> Inl x | Inr v \<Rightarrow> k v)"

definition Update_f :: "double \<Rightarrow> PID_f \<Rightarrow> pynum \<Rightarrow> pynum option \<Rightarrow> error + (pynum \<times> PID_f)" where
  "Update_f clock self err current_time =
     (let current_time = (case current_time of None \<Rightarrow> PyFloat clock | Some t \<Rightarrow> t)
      in raising (py_sub current_time (previous_time_f self)) (\<lambda>dt.
         if py_le_zero dt then Inr (PyInt 0, self)
         else
           raising (py_sub err (previous_error_f self)) (\<lambda>de.
           let self = self\<lparr>Cp_f := err\<rparr>
           in raising (py_mul err dt) (\<lambda>p.
              raising (py_add (Ci_f self) p) (\<lambda>ci.
              let self = self\<lparr>Ci_f := ci\<rparr>
              in raising (py_truediv de dt) (\<lambda>q.
                 let self = self\<lparr>Cd_f := q\<rparr>;
                     self = self\<lparr>previous_time_f := current_time\<rparr>;
                     self = self\<lparr>previous_error_f := err\<rparr>
                 in raising (py_mul (Kp_f self) (Cp_f self)) (\<lambda>tp.
                    raising (py_mul (Ki_f self) (Ci_f self)) (\<lambda>ti.
                    raising (py_add tp ti) (\<lambda>s.
                    raising (py_mul (Kd_f self) (Cd_f self)) (\<lambda>td.
                    raising (py_add s td) (\<lambda>out. Inr (out, self))))))))))))"

type_synonym call_f = "double \<times> pynum \<times> pynum option"

fun run_f :: "PID_f \<Rightarrow> call_f list \<Rightarrow> error + (pynum \<times> PID_f) list" where
  "run_f self [] = Inr []"
| "run_f self ((clock, err, current_time) # cs) =
     (case Update_f clock self err current_time of
        Inl x \<Rightarrow> Inl x
      | Inr (out, self') \<Rightarrow>
          (case run_f self' cs of
             Inl x \<Rightarrow> Inl x
           | Inr rest \<Rightarrow> Inr ((out, self') # rest)))"


definition returned_and_accumulator :: "PID_f \<Rightarrow> call_f list \<Rightarrow> error + (pynum \<times> pynum) list" where
  "returned_and_accumulator self cs =
     (case run_f self cs of
        Inl x \<Rightarrow> Inl x
      | Inr tr \<Rightarrow> Inr (map (\<lambda>(out, self'). (out, Ci_f self')) tr))"



text \<open>
  Predicates on arguments: \<open>equals_int v n\<close> says that \<open>v\<close> is the number \<open>n\<close>, as an int
  or as a float; \<open>is_float\<close>, \<open>float_state\<close> and \<open>float_call\<close> say that an argument, every
  field of the object, and the arguments of a call are floats (NaN and the infinities
  included); \<open>finite_num\<close> and \<open>not_nan\<close> exclude the infinities and NaN.
\<close>


fun equals_int :: "pynum \<Rightarrow> int \<Rightarrow> bool" where
  "equals_int (PyInt m) n = (m = n)"
| "equals_int (PyFloat d) n = (d = Fin (of_int n))"

fun finite_num :: "pynum \<Rightarrow> bool" where
  "finite_num (PyInt n) = True"
| "finite_num (PyFloat (Fin x)) = True"
| "finite_num (PyFloat d) = False"

fun is_float :: "pynum \<Rightarrow> bool" where
  "is_float (PyInt n) = False"
| "is_float (PyFloat d) = True"




section \<open>Properties of the exact model\<close>

lemma Update_noop:
  "(case current_time of None \<Rightarrow> clock | Some t \<Rightarrow> t) - previous_time self \<le> 0
   \<Longrightarrow> Update clock self err current_time = Inr (0, self)"
  by (simp add: Update_def Let_def)

lemma Update_step:
  assumes "0 < (case current_time of None \<Rightarrow> clock | Some t \<Rightarrow> t) - previous_time self"
  shows "Update clock self err current_time =
    Inr (Kp self * err
           + Ki self * (Ci self + err * ((case current_time of None \<Rightarrow> clock | Some t \<Rightarrow> t) - previous_time self))
           + Kd self * ((err - previous_error self) / ((case current_time of None \<Rightarrow> clock | Some t \<Rightarrow> t) - previous_time self)),
         self\<lparr>Cp := err,
              Ci := Ci self + err * ((case current_time of None \<Rightarrow> clock | Some t \<Rightarrow> t) - previous_time self),
              Cd := (err - previous_error self) / ((case current_time of None \<Rightarrow> clock | Some t \<Rightarrow> t) - previous_time self),
              previous_time := (case current_time of None \<Rightarrow> clock | Some t \<Rightarrow> t),
              previous_error := err\<rparr>)"
  using assms by (simp add: Update_def Let_def truediv_def)

lemma Update_Inr: "\<exists>out self'. Update clock self err current_time = Inr (out, self')"
proof (cases "(case current_time of None \<Rightarrow> clock | Some t \<Rightarrow> t) - previous_time self \<le> 0")
  case True
  then show ?thesis by (simp add: Update_noop)
next
  case False
  then have "0 < (case current_time of None \<Rightarrow> clock | Some t \<Rightarrow> t) - previous_time self"
    by simp
  then show ?thesis by (simp add: Update_step)
qed

lemma Update_cases:
  assumes "Update clock self err current_time = Inr (out, self')"
  obtains (noop) "(case current_time of None \<Rightarrow> clock | Some t \<Rightarrow> t) \<le> previous_time self"
      "out = 0" "self' = self"
  | (step) "previous_time self < (case current_time of None \<Rightarrow> clock | Some t \<Rightarrow> t)"
      "self' = self\<lparr>Cp := err,
              Ci := Ci self + err * ((case current_time of None \<Rightarrow> clock | Some t \<Rightarrow> t) - previous_time self),
              Cd := (err - previous_error self) / ((case current_time of None \<Rightarrow> clock | Some t \<Rightarrow> t) - previous_time self),
              previous_time := (case current_time of None \<Rightarrow> clock | Some t \<Rightarrow> t),
              previous_error := err\<rparr>"
proof (cases "(case current_time of None \<Rightarrow> clock | Some t \<Rightarrow> t) - previous_time self \<le> 0")
  case True
  with assms show ?thesis by (intro noop) (simp_all add: Update_noop)
next
  case False
  then have pos: "0 < (case current_time of None \<Rightarrow> clock | Some t \<Rightarrow> t) - previous_time self"
    by simp
  from assms show ?thesis
    unfolding Update_step [OF pos] using pos by (intro step) simp_all
qed

lemma Update_gains:
  assumes "Update clock self err current_time = Inr (out, self')"
  shows "Kp self' = Kp self \<and> Ki self' = Ki self \<and> Kd self' = Kd self"
  using assms by (cases rule: Update_cases) simp_all

lemma run_Cons:
  assumes "Update clock self err ct = Inr (out, self')" and "run self' cs = Inr tr"
  shows "run self ((clock, err, ct) # cs) = Inr ((out, self') # tr)"
  using assms by simp

lemma run_gains:
  "\<exists>tr. run self cs = Inr tr \<and>
     list_all (\<lambda>(out, self'). Kp self' = Kp self \<and> Ki self' = Ki self \<and> Kd self' = Kd self) tr"
proof (induction cs arbitrary: self)
  case Nil
  show ?case by simp
next
  case (Cons c cs)
  obtain clock err ct where c: "c = (clock, err, ct)" by (cases c)
  obtain out self' where u: "Update clock self err ct = Inr (out, self')"
    using Update_Inr by blast
  obtain tr where tr: "run self' cs = Inr tr"
    "list_all (\<lambda>(out, s). Kp s = Kp self' \<and> Ki s = Ki self' \<and> Kd s = Kd self') tr"
    using Cons.IH by blast
  have g: "Kp self' = Kp self \<and> Ki self' = Ki self \<and> Kd self' = Kd self"
    using u by (rule Update_gains)
  have "run self (c # cs) = Inr ((out, self') # tr)"
    unfolding c using u tr(1) by (rule run_Cons)
  moreover have "list_all (\<lambda>(out, s). Kp s = Kp self \<and> Ki s = Ki self \<and> Kd s = Kd self)
      ((out, self') # tr)"
    using tr(2) g by simp
  ultimately show ?case by blast
qed

lemma Update_explicit_step:
  assumes "previous_time self < t"
  shows "Update clock self err (Some t) =
    Inr (Kp self * err + Ki self * (Ci self + err * (t - previous_time self))
           + Kd self * ((err - previous_error self) / (t - previous_time self)),
         self\<lparr>Cp := err, Ci := Ci self + err * (t - previous_time self),
              Cd := (err - previous_error self) / (t - previous_time self),
              previous_time := t, previous_error := err\<rparr>)"
proof -
  have "0 < (case Some t of None \<Rightarrow> clock | Some t \<Rightarrow> t) - previous_time self"
    using assms by simp
  from Update_step [OF this] show ?thesis by simp
qed

section \<open>Properties of rounding\<close>

lemma rnd_even_of_int: "rnd_even (of_int k) = k"
  by (simp add: rnd_even_def)


lemma pow2_pos: "0 < (2::real) powi q"
  by (simp add: zero_less_power_int)

lemma pow2_Suc: "(2::real) powi (q + 1) = 2 * 2 powi q"
  by (simp add: power_int_add_1)

lemma pow2_pred: "(2::real) powi (q - 1) = 2 powi q / 2"
  using pow2_Suc [of "q - 1"] by simp

lemma pow2_neg_le_one: "(2::real) powi (- int n) \<le> 1"
  by (simp add: power_int_minus inverse_le_1_iff one_le_power)

lemma pow2_nat_ge_one: "1 \<le> (2::real) powi (int n)"
  by (simp add: one_le_power)

lemma norm_exp_bounds:
  "2 powi (- int n) \<le> x \<Longrightarrow> x < 2 powi (int n + 1)
   \<Longrightarrow> 2 powi (norm_exp n x) \<le> x \<and> x < 2 powi (norm_exp n x + 1)"
proof (induction n arbitrary: x)
  case 0
  then show ?case by simp
next
  case (Suc n)
  have e1: "- int (Suc n) = - int n - 1" and e2: "int (Suc n) + 1 = (int n + 1) + 1"
    by simp_all
  have lo: "2 powi (- int n) / 2 \<le> x"
    using Suc.prems(1) unfolding e1 pow2_pred .
  have hi: "x < 2 * 2 powi (int n + 1)"
    using Suc.prems(2) unfolding e2 pow2_Suc [of "int n + 1"] .
  show ?case
  proof (cases "2 \<le> x")
    case True
    have "2 powi (- int n) \<le> x / 2"
      using True pow2_neg_le_one [of n] by simp
    moreover have "x / 2 < 2 powi (int n + 1)" using hi by simp
    ultimately have ih: "2 powi (norm_exp n (x / 2)) \<le> x / 2"
      "x / 2 < 2 powi (norm_exp n (x / 2) + 1)"
      using Suc.IH by blast+
    have "2 powi (norm_exp n (x / 2) + 1) \<le> x"
      using ih(1) by (simp add: pow2_Suc)
    moreover have "x < 2 powi (norm_exp n (x / 2) + 1 + 1)"
      using ih(2) pow2_Suc [of "norm_exp n (x / 2) + 1"] by simp
    ultimately show ?thesis using True by simp
  next
    case False
    show ?thesis
    proof (cases "x < 1")
      case True
      have "2 powi (- int n) \<le> 2 * x" using lo by simp
      moreover have "2 * x < 2 powi (int n + 1)"
      proof -
        have "1 \<le> (2::real) powi (int n)" by (rule pow2_nat_ge_one)
        with True have "2 * x < 2 * 2 powi (int n)" by linarith
        then show ?thesis unfolding pow2_Suc .
      qed
      ultimately have ih: "2 powi (norm_exp n (2 * x)) \<le> 2 * x"
        "2 * x < 2 powi (norm_exp n (2 * x) + 1)"
        using Suc.IH by blast+
      have "2 powi (norm_exp n (2 * x) - 1) \<le> x"
        using ih(1) by (simp add: pow2_pred)
      moreover have "x < 2 powi (norm_exp n (2 * x) - 1 + 1)"
        using ih(2) by (simp add: pow2_Suc)
      ultimately show ?thesis using True False by simp
    next
      case False
      with \<open>\<not> 2 \<le> x\<close> show ?thesis by simp
    qed
  qed
qed

lemma max_limit_pow: "max_limit = 2 powi 1024"
  by (simp add: max_limit_def)

lemma round_double_exact:
  assumes "x = of_int m * 2 powi (quantum x)" and "\<bar>x\<bar> < max_limit"
  shows "round_double x = Fin x"
proof -
  have "x / 2 powi (quantum x) = of_int m"
    using assms(1) pow2_pos [of "quantum x"] by (simp add: field_simps)
  then have "of_int (rnd_even (x / 2 powi (quantum x))) * 2 powi (quantum x) = x"
    using assms(1) by (simp add: rnd_even_of_int)
  moreover have "\<not> max_limit \<le> x" "\<not> x \<le> - max_limit"
    using assms(2) by linarith+
  ultimately show ?thesis by (simp add: round_double_def Let_def)
qed

lemma quantum_normal:
  assumes "1 \<le> \<bar>x\<bar>" and "\<bar>x\<bar> < max_limit"
  shows "2 powi (quantum x + 52) \<le> \<bar>x\<bar> \<and> \<bar>x\<bar> < 2 powi (quantum x + 53)"
proof -
  have "min_normal \<le> 1" unfolding min_normal_def using pow2_neg_le_one [of 1022] by simp
  with assms(1) have a: "\<not> \<bar>x\<bar> < min_normal" by linarith
  have q: "quantum x = norm_exp 2100 \<bar>x\<bar> - 52"
    using a assms(2) by (simp add: quantum_def)
  have "(2::real) powi (- int 2100) \<le> 1" by (rule pow2_neg_le_one)
  with assms(1) have lo: "2 powi (- int 2100) \<le> \<bar>x\<bar>" by linarith
  have "(2::real) powi 1024 < 2 powi (int 2100 + 1)"
    by (rule power_int_strict_increasing) simp_all
  with assms(2) have hi: "\<bar>x\<bar> < 2 powi (int 2100 + 1)"
    unfolding max_limit_pow by linarith
  from norm_exp_bounds [OF lo hi] show ?thesis
    unfolding q by (simp add: add.commute)
qed

lemma round_double_zero: "round_double 0 = Fin 0"
proof -
  have "0 < min_normal" unfolding min_normal_def by (rule pow2_pos)
  moreover have "0 < max_limit" unfolding max_limit_pow by (rule pow2_pos)
  ultimately show ?thesis
    by (simp add: round_double_def quantum_def rnd_even_def)
qed

lemma round_double_int:
  assumes "\<bar>n\<bar> \<le> 2 ^ 53"
  shows "round_double (of_int n) = Fin (of_int n)"
proof (cases "n = 0")
  case True
  then show ?thesis by (simp add: round_double_zero)
next
  case False
  define x :: real where "x = of_int n"
  define q where "q = quantum x"
  have ax: "\<bar>x\<bar> = of_int \<bar>n\<bar>" by (simp add: x_def)
  have "1 \<le> \<bar>n\<bar>" using False by simp
  then have "(1::real) \<le> of_int \<bar>n\<bar>" by (simp only: of_int_1_le_iff)
  then have one: "1 \<le> \<bar>x\<bar>" unfolding ax .
  have p53: "(2::real) powi 53 = of_int (2 ^ 53)" by simp
  have "(of_int \<bar>n\<bar> :: real) \<le> of_int (2 ^ 53)"
    using assms by (simp only: of_int_le_iff)
  then have le: "\<bar>x\<bar> \<le> 2 powi 53" unfolding ax p53 .
  have "(2::real) powi 53 < 2 powi 1024"
    by (rule power_int_strict_increasing) simp_all
  with le have big: "\<bar>x\<bar> < max_limit" unfolding max_limit_pow by linarith
  from quantum_normal [OF one big]
  have b: "2 powi (q + 52) \<le> \<bar>x\<bar>" "\<bar>x\<bar> < 2 powi (q + 53)" by (simp_all add: q_def)
  have qlo: "- 52 \<le> q"
  proof (rule ccontr)
    assume "\<not> - 52 \<le> q"
    then have "q + 53 \<le> 0" by simp
    then have "(2::real) powi (q + 53) \<le> 2 powi 0"
      by (intro power_int_increasing) simp_all
    with b(2) one show False by simp
  qed
  have qhi: "q \<le> 1"
  proof (rule ccontr)
    assume "\<not> q \<le> 1"
    then have "53 < q + 52" by simp
    then have "(2::real) powi 53 < 2 powi (q + 52)"
      by (intro power_int_strict_increasing) simp_all
    with b(1) le show False by linarith
  qed
  have "\<exists>m. x = of_int m * 2 powi q"
  proof (cases "q \<le> 0")
    case True
    have "(2::real) powi (- q) = 2 ^ nat (- q)"
      using True by (simp add: power_int_nonneg_exp)
    then have "(of_int (n * 2 ^ nat (- q)) :: real) * 2 powi q = of_int n * (2 powi (- q) * 2 powi q)"
      by simp
    also have "2 powi (- q) * (2::real) powi q = 1"
      by (simp add: power_int_minus)
    finally show ?thesis unfolding x_def by (intro exI [of _ "n * 2 ^ nat (- q)"]) simp
  next
    case False
    with qhi have q1: "q = 1" by simp
    have "2 powi 53 \<le> \<bar>x\<bar>" using b(1) unfolding q1 by simp
    with le have "\<bar>x\<bar> = 2 powi 53" by linarith
    then have "(of_int \<bar>n\<bar> :: real) = of_int (2 ^ 53)" unfolding ax p53 .
    then have "\<bar>n\<bar> = 2 ^ 53" by (simp only: of_int_eq_iff)
    then have "even n" by (metis even_abs_add_iff even_add even_numeral even_power zero_less_numeral)
    then have "n = (n div 2) * 2" by simp
    then have "(of_int n :: real) = of_int ((n div 2) * 2)" by simp
    then have "of_int n = (of_int (n div 2) :: real) * 2"
      by (simp only: of_int_mult of_int_numeral)
    then show ?thesis unfolding x_def q1 by (intro exI [of _ "n div 2"]) simp
  qed
  then obtain m where "x = of_int m * 2 powi (quantum x)" unfolding q_def by blast
  from round_double_exact [OF this big] show ?thesis unfolding x_def .
qed




subsection \<open>Conversions and small integers\<close>

lemma to_float_small:
  assumes "equals_int a n" and "\<bar>n\<bar> \<le> 2 ^ 53"
  shows "to_float a = Inr (Fin (of_int n))"
proof (cases a)
  case (PyInt m)
  with assms show ?thesis by (simp add: to_float_def round_double_int)
next
  case (PyFloat d)
  with assms show ?thesis by (simp add: to_float_def)
qed


lemma py_sub_small:
  assumes "equals_int a m" and "equals_int b n"
    and "\<bar>m\<bar> \<le> 2 ^ 53" and "\<bar>n\<bar> \<le> 2 ^ 53" and "\<bar>m - n\<bar> \<le> 2 ^ 53"
  shows "\<exists>c. py_sub a b = Inr c \<and> equals_int c (m - n)"
proof (cases "\<exists>i j. a = PyInt i \<and> b = PyInt j")
  case True
  with assms show ?thesis by auto
next
  case False
  then have "py_sub a b = float_op (\<lambda>x y. Inr (fsub x y)) a b"
    by (cases a; cases b) simp_all
  moreover have "round_double (of_int m + - of_int n) = Fin (of_int (m - n))"
    using round_double_int [OF assms(5)] by simp
  ultimately show ?thesis
    using to_float_small [OF assms(1,3)] to_float_small [OF assms(2,4)]
    by (simp add: float_op_def fsub_def)
qed

lemma py_mul_small:
  assumes "equals_int a m" and "equals_int b n"
    and "\<bar>m\<bar> \<le> 2 ^ 53" and "\<bar>n\<bar> \<le> 2 ^ 53" and "\<bar>m * n\<bar> \<le> 2 ^ 53"
  shows "\<exists>c. py_mul a b = Inr c \<and> equals_int c (m * n)"
proof (cases "\<exists>i j. a = PyInt i \<and> b = PyInt j")
  case True
  with assms show ?thesis by auto
next
  case False
  then have "py_mul a b = float_op (\<lambda>x y. Inr (fmul x y)) a b"
    by (cases a; cases b) simp_all
  moreover have "round_double (of_int m * of_int n) = Fin (of_int (m * n))"
    using round_double_int [OF assms(5)] by simp
  ultimately show ?thesis
    using to_float_small [OF assms(1,3)] to_float_small [OF assms(2,4)]
    by (simp add: float_op_def)
qed

lemma py_truediv_one:
  assumes "equals_int a m" and "equals_int b 1" and "\<bar>m\<bar> \<le> 2 ^ 53"
  shows "py_truediv a b = Inr (PyFloat (Fin (of_int m)))"
proof (cases "\<exists>i j. a = PyInt i \<and> b = PyInt j")
  case True
  with assms show ?thesis by (auto simp: round_double_int)
next
  case False
  then have "py_truediv a b = float_op fdiv a b"
    by (cases a; cases b) simp_all
  moreover have "to_float b = Inr (Fin 1)"
    using to_float_small [OF assms(2)] by simp
  ultimately show ?thesis
    using to_float_small [OF assms(1,3)] by (simp add: float_op_def round_double_int [OF assms(3)])
qed

lemma py_mul_zero:
  assumes "equals_int k 0"
  shows "py_mul k (PyFloat (Fin c)) = Inr (PyFloat (Fin 0))"
proof -
  have "to_float k = Inr (Fin 0)"
    using to_float_small [OF assms] by simp
  moreover have "py_mul k (PyFloat (Fin c)) = float_op (\<lambda>x y. Inr (fmul x y)) k (PyFloat (Fin c))"
    by (cases k) simp_all
  ultimately show ?thesis
    by (simp add: float_op_def to_float_def round_double_zero)
qed

subsection \<open>One call of the binary64 model\<close>


lemma Update_f_step:
  assumes "py_sub (case current_time of None \<Rightarrow> PyFloat clock | Some t \<Rightarrow> t) (previous_time_f self) = Inr dt"
    and "\<not> py_le_zero dt"
    and "py_sub err (previous_error_f self) = Inr de"
    and "py_mul err dt = Inr p"
    and "py_add (Ci_f self) p = Inr ci"
    and "py_truediv de dt = Inr cd"
    and "py_mul (Kp_f self) err = Inr tp"
    and "py_mul (Ki_f self) ci = Inr ti"
    and "py_add tp ti = Inr s"
    and "py_mul (Kd_f self) cd = Inr td"
    and "py_add s td = Inr out"
  shows "Update_f clock self err current_time =
     Inr (out, self\<lparr>Cp_f := err, Ci_f := ci, Cd_f := cd,
            previous_time_f := (case current_time of None \<Rightarrow> PyFloat clock | Some t \<Rightarrow> t),
            previous_error_f := err\<rparr>)"
  using assms by (simp add: Update_f_def raising_def)

subsection \<open>Float arguments\<close>










subsection \<open>Calls on small integers\<close>

lemma equals_int_one_positive:
  assumes "equals_int dt 1"
  shows "\<not> py_le_zero dt"
  using assms by (cases dt) auto

lemma py_add_small_l:
  assumes "equals_int b n" and "\<bar>n\<bar> \<le> 2 ^ 53" and "\<bar>m + n\<bar> \<le> 2 ^ 53"
  shows "py_add (PyFloat (Fin (of_int m))) b = Inr (PyFloat (Fin (of_int (m + n))))"
proof -
  have "round_double (of_int m + of_int n) = Fin (of_int (m + n))"
    using round_double_int [OF assms(3)] by simp
  then show ?thesis
    using to_float_small [OF assms(1,2)] by (cases b) (simp_all add: float_op_def to_float_def)
qed

lemma py_add_small_r:
  assumes "equals_int a m" and "\<bar>m\<bar> \<le> 2 ^ 53" and "\<bar>m + n\<bar> \<le> 2 ^ 53"
  shows "py_add a (PyFloat (Fin (of_int n))) = Inr (PyFloat (Fin (of_int (m + n))))"
proof -
  have "round_double (of_int m + of_int n) = Fin (of_int (m + n))"
    using round_double_int [OF assms(3)] by simp
  then show ?thesis
    using to_float_small [OF assms(1,2)] by (cases a) (simp_all add: float_op_def to_float_def)
qed

lemma py_mul_small_r:
  assumes "equals_int a m" and "\<bar>m\<bar> \<le> 2 ^ 53" and "\<bar>m * n\<bar> \<le> 2 ^ 53"
  shows "py_mul a (PyFloat (Fin (of_int n))) = Inr (PyFloat (Fin (of_int (m * n))))"
proof -
  have "round_double (of_int m * of_int n) = Fin (of_int (m * n))"
    using round_double_int [OF assms(3)] by simp
  then show ?thesis
    using to_float_small [OF assms(1,2)] by (cases a) (simp_all add: float_op_def to_float_def)
qed

lemma abs_mult_bound:
  fixes a b :: int
  assumes "\<bar>a\<bar> \<le> A" and "\<bar>b\<bar> \<le> B"
  shows "\<bar>a * b\<bar> \<le> A * B"
proof -
  have "\<bar>a * b\<bar> = \<bar>a\<bar> * \<bar>b\<bar>" by (rule abs_mult)
  also have "\<dots> \<le> A * B" using assms by (intro mult_mono) simp_all
  finally show ?thesis .
qed

lemma small_enough:
  fixes n :: int
  assumes "\<bar>n\<bar> \<le> 5000000"
  shows "\<bar>n\<bar> \<le> 2 ^ 53"
  using assms by simp

lemma Update_f_unit:
  assumes kp: "equals_int (Kp_f self) kp" and ki: "equals_int (Ki_f self) ki"
    and kd: "equals_int (Kd_f self) kd"
    and ci: "Ci_f self = PyFloat (Fin (of_int ci))"
    and pe: "equals_int (previous_error_f self) pe" and e: "equals_int err e"
    and dt: "py_sub t (previous_time_f self) = Inr dt" and one: "equals_int dt 1"
    and b: "\<bar>kp\<bar> \<le> 1000" "\<bar>ki\<bar> \<le> 1000" "\<bar>kd\<bar> \<le> 1000"
      "\<bar>ci\<bar> \<le> 1000" "\<bar>pe\<bar> \<le> 1000" "\<bar>e\<bar> \<le> 1000"
  shows "Update_f clock self err (Some t) =
     Inr (PyFloat (Fin (of_int (kp * e + ki * (ci + e) + kd * (e - pe)))),
          self\<lparr>Cp_f := err, Ci_f := PyFloat (Fin (of_int (ci + e))),
               Cd_f := PyFloat (Fin (of_int (e - pe))),
               previous_time_f := t, previous_error_f := err\<rparr>)"
proof -
  have b1: "\<bar>e - pe\<bar> \<le> 2000" "\<bar>ci + e\<bar> \<le> 2000" using b by linarith+
  have m1: "\<bar>kp * e\<bar> \<le> 1000 * 1000" using b(1) b(6) by (rule abs_mult_bound)
  have m2: "\<bar>ki * (ci + e)\<bar> \<le> 1000 * 2000" using b(2) b1(2) by (rule abs_mult_bound)
  have m3: "\<bar>kd * (e - pe)\<bar> \<le> 1000 * 2000" using b(3) b1(1) by (rule abs_mult_bound)
  have b3: "\<bar>kp * e + ki * (ci + e)\<bar> \<le> 5000000"
    "\<bar>kp * e + ki * (ci + e) + kd * (e - pe)\<bar> \<le> 5000000"
    using m1 m2 m3 by linarith+
  have s: "\<bar>kp\<bar> \<le> 2 ^ 53" "\<bar>ki\<bar> \<le> 2 ^ 53" "\<bar>kd\<bar> \<le> 2 ^ 53" "\<bar>pe\<bar> \<le> 2 ^ 53"
    "\<bar>e\<bar> \<le> 2 ^ 53" "\<bar>e - pe\<bar> \<le> 2 ^ 53" "\<bar>ci + e\<bar> \<le> 2 ^ 53" "\<bar>kp * e\<bar> \<le> 2 ^ 53"
    "\<bar>ki * (ci + e)\<bar> \<le> 2 ^ 53" "\<bar>kd * (e - pe)\<bar> \<le> 2 ^ 53"
    "\<bar>kp * e + ki * (ci + e)\<bar> \<le> 2 ^ 53"
    "\<bar>kp * e + ki * (ci + e) + kd * (e - pe)\<bar> \<le> 2 ^ 53"
  proof -
    show "\<bar>kp\<bar> \<le> 2 ^ 53" using b(1) by (intro small_enough) linarith
    show "\<bar>ki\<bar> \<le> 2 ^ 53" using b(2) by (intro small_enough) linarith
    show "\<bar>kd\<bar> \<le> 2 ^ 53" using b(3) by (intro small_enough) linarith
    show "\<bar>pe\<bar> \<le> 2 ^ 53" using b(5) by (intro small_enough) linarith
    show "\<bar>e\<bar> \<le> 2 ^ 53" using b(6) by (intro small_enough) linarith
    show "\<bar>e - pe\<bar> \<le> 2 ^ 53" using b1(1) by (intro small_enough) linarith
    show "\<bar>ci + e\<bar> \<le> 2 ^ 53" using b1(2) by (intro small_enough) linarith
    show "\<bar>kp * e\<bar> \<le> 2 ^ 53" using m1 by (intro small_enough) linarith
    show "\<bar>ki * (ci + e)\<bar> \<le> 2 ^ 53" using m2 by (intro small_enough) linarith
    show "\<bar>kd * (e - pe)\<bar> \<le> 2 ^ 53" using m3 by (intro small_enough) linarith
    show "\<bar>kp * e + ki * (ci + e)\<bar> \<le> 2 ^ 53" using b3(1) by (rule small_enough)
    show "\<bar>kp * e + ki * (ci + e) + kd * (e - pe)\<bar> \<le> 2 ^ 53" using b3(2) by (rule small_enough)
  qed
  have s1: "\<bar>1::int\<bar> \<le> 2 ^ 53" by simp
  have s2: "\<bar>e * 1\<bar> \<le> 2 ^ 53" using s(5) by simp
  obtain de where de: "py_sub err (previous_error_f self) = Inr de" "equals_int de (e - pe)"
    using py_sub_small [OF e pe s(5) s(4) s(6)] by blast
  obtain p where p: "py_mul err dt = Inr p" "equals_int p (e * 1)"
    using py_mul_small [OF e one s(5) s1 s2] by blast
  have ci': "py_add (Ci_f self) p = Inr (PyFloat (Fin (of_int (ci + e))))"
    unfolding ci using p(2) s(5) s(7) by (intro py_add_small_l) simp_all
  have cd: "py_truediv de dt = Inr (PyFloat (Fin (of_int (e - pe))))"
    using de(2) one s(6) by (rule py_truediv_one)
  obtain tp where tp: "py_mul (Kp_f self) err = Inr tp" "equals_int tp (kp * e)"
    using py_mul_small [OF kp e s(1) s(5) s(8)] by blast
  have ti: "py_mul (Ki_f self) (PyFloat (Fin (of_int (ci + e)))) = Inr (PyFloat (Fin (of_int (ki * (ci + e)))))"
    using ki s(2) s(9) by (rule py_mul_small_r)
  have sm: "py_add tp (PyFloat (Fin (of_int (ki * (ci + e))))) = Inr (PyFloat (Fin (of_int (kp * e + ki * (ci + e)))))"
    using tp(2) s(8) s(11) by (rule py_add_small_r)
  have td: "py_mul (Kd_f self) (PyFloat (Fin (of_int (e - pe)))) = Inr (PyFloat (Fin (of_int (kd * (e - pe)))))"
    using kd s(3) s(10) by (rule py_mul_small_r)
  have out: "py_add (PyFloat (Fin (of_int (kp * e + ki * (ci + e))))) (PyFloat (Fin (of_int (kd * (e - pe)))))
      = Inr (PyFloat (Fin (of_int (kp * e + ki * (ci + e) + kd * (e - pe)))))"
    using s(10) s(12) by (intro py_add_small_l) simp_all
  have g: "\<not> py_le_zero dt" using one by (rule equals_int_one_positive)
  have dt': "py_sub (case Some t of None \<Rightarrow> PyFloat clock | Some t \<Rightarrow> t) (previous_time_f self) = Inr dt"
    using dt by simp
  from Update_f_step [OF dt' g de(1) p(1) ci' cd tp(1) ti sm td out]
  show ?thesis by simp
qed

lemma float_op_is_float:
  assumes "float_op f a b = Inr c"
  shows "is_float c"
  using assms by (auto simp: float_op_def split: sum.splits)

lemma py_add_float_l:
  assumes "py_add (PyFloat a) b = Inr c"
  shows "is_float c"
  using assms by (cases b) (auto dest: float_op_is_float)

lemma py_truediv_float_l:
  assumes "py_truediv (PyFloat a) b = Inr c"
  shows "is_float c"
  using assms by (cases b) (auto dest: float_op_is_float)

lemma finite_float:
  assumes "is_float c" and "finite_num c"
  obtains x where "c = PyFloat (Fin x)"
  using assms by (cases c rule: finite_num.cases) simp_all

lemma py_sub_small_r:
  assumes "equals_int a m" and "\<bar>m\<bar> \<le> 2 ^ 53" and "\<bar>m - n\<bar> \<le> 2 ^ 53"
  shows "py_sub a (PyFloat (Fin (of_int n))) = Inr (PyFloat (Fin (of_int (m - n))))"
proof -
  have "round_double (of_int m + - of_int n) = Fin (of_int (m - n))"
    using round_double_int [OF assms(3)] by simp
  then show ?thesis
    using to_float_small [OF assms(1,2)]
    by (cases a) (simp_all add: float_op_def to_float_def fsub_def)
qed

lemma unit_run:
  assumes kp: "equals_int kp a" and ki: "equals_int ki b" and kd: "equals_int kd c"
    and e1: "equals_int err1 x" and e2: "equals_int err2 y"
    and dt1: "py_sub t1 t0 = Inr dt1" and one1: "equals_int dt1 1"
    and dt2: "py_sub t2 t1 = Inr dt2" and one2: "equals_int dt2 1"
    and b: "\<bar>a\<bar> \<le> 1000" "\<bar>b\<bar> \<le> 1000" "\<bar>c\<bar> \<le> 1000" "\<bar>x\<bar> \<le> 500" "\<bar>y\<bar> \<le> 500"
  shows "returned_and_accumulator (PID_init_f clock0 kp ki kd (Some t0))
           [(clock1, err1, Some t1), (clock2, err2, Some t2)] =
     Inr [(PyFloat (Fin (of_int (a * x + b * x + c * x))), PyFloat (Fin (of_int x))),
          (PyFloat (Fin (of_int (a * y + b * (x + y) + c * (y - x)))), PyFloat (Fin (of_int (x + y))))]"
proof -
  define s0 where "s0 = PID_init_f clock0 kp ki kd (Some t0)"
  define s1 where "s1 = s0\<lparr>Cp_f := err1, Ci_f := PyFloat (Fin (of_int (0 + x))),
      Cd_f := PyFloat (Fin (of_int (x - 0))), previous_time_f := t1, previous_error_f := err1\<rparr>"
  define s2 where "s2 = s1\<lparr>Cp_f := err2, Ci_f := PyFloat (Fin (of_int (x + y))),
      Cd_f := PyFloat (Fin (of_int (y - x))), previous_time_f := t2, previous_error_f := err2\<rparr>"
  have bx: "\<bar>x\<bar> \<le> 1000" and "by": "\<bar>y\<bar> \<le> 1000" using b by linarith+
  have u1: "Update_f clock1 s0 err1 (Some t1) =
      Inr (PyFloat (Fin (of_int (a * x + b * (0 + x) + c * (x - 0)))), s1)"
    unfolding s1_def
    by (rule Update_f_unit [where dt = dt1])
       (use kp ki kd e1 dt1 one1 b bx in \<open>simp_all add: s0_def PID_init_f_def\<close>)
  have u2: "Update_f clock2 s1 err2 (Some t2) =
      Inr (PyFloat (Fin (of_int (a * y + b * (x + y) + c * (y - x)))), s2)"
    unfolding s2_def
    by (rule Update_f_unit [where dt = dt2])
       (use kp ki kd e1 e2 dt2 one2 b bx "by" in \<open>simp_all add: s0_def s1_def PID_init_f_def\<close>)
  have "run_f s0 [(clock1, err1, Some t1), (clock2, err2, Some t2)] =
      Inr [(PyFloat (Fin (of_int (a * x + b * (0 + x) + c * (x - 0)))), s1),
           (PyFloat (Fin (of_int (a * y + b * (x + y) + c * (y - x)))), s2)]"
    using u1 u2 by simp
  then show ?thesis
    unfolding s0_def [symmetric] by (simp add: returned_and_accumulator_def s1_def s2_def)
qed

subsection \<open>Evaluation on numerals\<close>

lemma norm_exp_numeral:
  "norm_exp (numeral k) x =
     (if 2 \<le> x then norm_exp (pred_numeral k) (x / 2) + 1
      else if x < 1 then norm_exp (pred_numeral k) (2 * x) - 1
      else 0)"
  by (simp add: numeral_eq_Suc)

lemmas round_eval = round_double_def quantum_def max_limit_def min_normal_def rnd_even_def
  norm_exp_numeral Let_def

lemmas call_eval = Update_f_def raising_def PID_init_f_def float_op_def to_float_def fsub_def
  inf_of_sign_def float_lit_def

section \<open>The properties of the specification\<close>



text \<open>
  Claim C2. For every controller state and every call of \<open>Update\<close> whose
  \<open>dt = current_time - previous_time\<close> is zero or negative, the call returns zero and
  leaves the whole object as it was, so \<open>previous_time\<close>, \<open>previous_error\<close> and the
  integral accumulator are unchanged; two calls with that same timestamp, whatever their
  errors, both return zero and both leave the object as it was.
\<close>

theorem Update_nonpositive_dt:
  assumes "t = (case current_time of None \<Rightarrow> clock | Some t \<Rightarrow> t)"
    and "t - previous_time self \<le> 0"
  shows "Update clock self err current_time = Inr (0, self)
       \<and> run self [(clock1, err1, Some t), (clock2, err2, Some t)] = Inr [(0, self), (0, self)]"
proof -
  have "Update clock self err current_time = Inr (0, self)"
    using assms by (simp add: Update_noop)
  moreover have "Update clock1 self err1 (Some t) = Inr (0, self)"
    and "Update clock2 self err2 (Some t) = Inr (0, self)"
    using assms(2) by (simp_all add: Update_noop)
  ultimately show ?thesis by simp
qed

text \<open>
  Two calls at time 10, the time at which the controller was made.
\<close>

theorem Update_nonpositive_dt_witness:
  "(10::real) = (case Some 10 of None \<Rightarrow> 0 | Some t \<Rightarrow> t)
   \<and> 10 - previous_time (PID_init 0 1 2 3 (Some 10)) \<le> 0
   \<and> Update 0 (PID_init 0 1 2 3 (Some 10)) 5 (Some 10) = Inr (0, PID_init 0 1 2 3 (Some 10))
   \<and> run (PID_init 0 1 2 3 (Some 10)) [(0, 5, Some 10), (0, 7, Some 10)]
       = Inr [(0, PID_init 0 1 2 3 (Some 10)), (0, PID_init 0 1 2 3 (Some 10))]"
proof -
  have a: "(10::real) = (case Some 10 of None \<Rightarrow> 0 | Some t \<Rightarrow> t)"
    by simp
  have b: "10 - previous_time (PID_init 0 1 2 3 (Some 10)) \<le> 0"
    by (simp add: PID_init_def)
  from Update_nonpositive_dt [OF a b, where err = 5 and ?clock1.0 = 0 and ?err1.0 = 5
      and ?clock2.0 = 0 and ?err2.0 = 7]
  show ?thesis using a b by blast
qed




text \<open>
  Claim C4 says that on a controller made at \<open>t0\<close> with gains 1, 0, 0 the call
  \<^verbatim>\<open>Update(5, t0 + 1)\<close> returns 5. At \<open>t0 = 2.0 ** 53\<close> the caller's \<open>t0 + 1\<close> rounds to
  \<open>t0\<close>, so \<open>dt = 0.0\<close> and the call returns 0 and changes nothing.
\<close>

theorem proportional_only_counterexample:
  "py_add (PyFloat (Fin (2 ^ 53))) (PyInt 1) = Inr (PyFloat (Fin (2 ^ 53)))
   \<and> Update_f (Fin 0)
        (PID_init_f (Fin 0) (PyInt 1) (PyInt 0) (PyInt 0) (Some (PyFloat (Fin (2 ^ 53)))))
        (PyInt 5) (Some (PyFloat (Fin (2 ^ 53))))
      = Inr (PyInt 0, PID_init_f (Fin 0) (PyInt 1) (PyInt 0) (PyInt 0) (Some (PyFloat (Fin (2 ^ 53)))))"
  by (simp add: call_eval round_eval)

text \<open>
  Claim C4, amended. On a controller made at \<open>t0\<close> with gains 1, 0, 0 (ints or floats),
  a call \<^verbatim>\<open>Update(5, t)\<close>, in particular with \<open>t = t0 + 1\<close>, returns \<open>5.0\<close> whenever the
  computed \<open>dt = t - t0\<close> does not satisfy \<^verbatim>\<open>dt <= 0.0\<close> and the integral term
  \<open>0.0 + 5 * dt\<close> and the derivative term \<open>5.0 / dt\<close> that the call computes are finite
  (the product of the gain 0 with an infinity or NaN is NaN).
\<close>

theorem proportional_only_f:
  assumes kp: "equals_int kp 1" and ki: "equals_int ki 0" and kd: "equals_int kd 0"
    and err: "equals_int err 5"
    and dt: "py_sub t t0 = Inr dt" and guard: "\<not> py_le_zero dt"
    and ci: "raising (py_mul err dt) (py_add (PyFloat (Fin 0))) = Inr ci" and fci: "finite_num ci"
    and cd: "py_truediv (PyFloat (Fin 5)) dt = Inr cd" and fcd: "finite_num cd"
  shows "Update_f clock (PID_init_f clock0 kp ki kd (Some t0)) err (Some t) =
     Inr (PyFloat (Fin 5),
          (PID_init_f clock0 kp ki kd (Some t0))\<lparr>Cp_f := err, Ci_f := ci, Cd_f := cd,
             previous_time_f := t, previous_error_f := err\<rparr>)"
proof -
  define s0 where "s0 = PID_init_f clock0 kp ki kd (Some t0)"
  have f: "Kp_f s0 = kp" "Ki_f s0 = ki" "Kd_f s0 = kd" "Ci_f s0 = PyFloat (Fin 0)"
    "previous_error_f s0 = PyFloat (Fin 0)" "previous_time_f s0 = t0"
    by (simp_all add: s0_def PID_init_f_def)
  have s5: "\<bar>5::int\<bar> \<le> 2 ^ 53" and s1: "\<bar>1::int\<bar> \<le> 2 ^ 53" by simp_all
  obtain p where p: "py_mul err dt = Inr p" "py_add (PyFloat (Fin 0)) p = Inr ci"
    using ci by (auto simp: raising_def split: sum.splits)
  obtain c where c: "ci = PyFloat (Fin c)"
    using py_add_float_l [OF p(2)] fci by (rule finite_float)
  obtain d where d: "cd = PyFloat (Fin d)"
    using py_truediv_float_l [OF cd] fcd by (rule finite_float)
  have de: "py_sub err (previous_error_f s0) = Inr (PyFloat (Fin 5))"
    using py_sub_small_r [OF err s5, of 0] by (simp add: f)
  obtain tp where tp: "py_mul (Kp_f s0) err = Inr tp" "equals_int tp (1 * 5)"
    unfolding f using py_mul_small [OF kp err s1 s5] by auto
  have ti: "py_mul (Ki_f s0) ci = Inr (PyFloat (Fin 0))"
    unfolding f c using ki by (rule py_mul_zero)
  have sm: "py_add tp (PyFloat (Fin 0)) = Inr (PyFloat (Fin 5))"
    using py_add_small_r [of tp 5 0] tp(2) by simp
  have td: "py_mul (Kd_f s0) cd = Inr (PyFloat (Fin 0))"
    unfolding f d using kd by (rule py_mul_zero)
  have out: "py_add (PyFloat (Fin 5)) (PyFloat (Fin 0)) = Inr (PyFloat (Fin 5))"
    using py_add_small_l [of "PyFloat (Fin 0)" 0 5] by simp
  have dt': "py_sub (case Some t of None \<Rightarrow> PyFloat clock | Some t \<Rightarrow> t) (previous_time_f s0) = Inr dt"
    using dt by (simp add: f)
  have p1: "py_mul err dt = Inr p" by (rule p(1))
  have p2: "py_add (Ci_f s0) p = Inr ci" using p(2) by (simp add: f)
  from Update_f_step [OF dt' guard de p1 p2 cd tp(1) ti sm td out]
  show ?thesis unfolding s0_def by simp
qed

text \<open>
  At \<open>t0 = 0.3\<close> the caller's \<open>t0 + 1\<close> is the float \<open>1.3\<close>, the computed \<open>dt\<close> is \<open>1.0\<close>,
  and the call returns \<open>5.0\<close>.
\<close>

theorem proportional_only_f_witness:
  "equals_int (PyInt 1) 1 \<and> equals_int (PyFloat (Fin 0)) 0 \<and> equals_int (PyInt 0) 0
   \<and> equals_int (PyInt 5) 5
   \<and> float_lit (3 / 10) = PyFloat (Fin (5404319552844595 / 18014398509481984))
   \<and> py_add (float_lit (3 / 10)) (PyInt 1) = Inr (PyFloat (Fin (5854679515581645 / 4503599627370496)))
   \<and> py_sub (PyFloat (Fin (5854679515581645 / 4503599627370496))) (float_lit (3 / 10)) = Inr (PyFloat (Fin 1))
   \<and> \<not> py_le_zero (PyFloat (Fin 1))
   \<and> raising (py_mul (PyInt 5) (PyFloat (Fin 1))) (py_add (PyFloat (Fin 0))) = Inr (PyFloat (Fin 5))
   \<and> finite_num (PyFloat (Fin 5))
   \<and> py_truediv (PyFloat (Fin 5)) (PyFloat (Fin 1)) = Inr (PyFloat (Fin 5))
   \<and> Update_f (Fin 0) (PID_init_f (Fin 0) (PyInt 1) (PyFloat (Fin 0)) (PyInt 0) (Some (float_lit (3 / 10))))
        (PyInt 5) (Some (PyFloat (Fin (5854679515581645 / 4503599627370496))))
      = Inr (PyFloat (Fin 5),
          \<lparr>Kp_f = PyInt 1, Ki_f = PyFloat (Fin 0), Kd_f = PyInt 0,
           Cp_f = PyInt 5, Ci_f = PyFloat (Fin 5), Cd_f = PyFloat (Fin 5),
           previous_time_f = PyFloat (Fin (5854679515581645 / 4503599627370496)),
           previous_error_f = PyInt 5\<rparr>)"
proof -
  have l: "float_lit (3 / 10) = PyFloat (Fin (5404319552844595 / 18014398509481984))"
    by (simp add: call_eval round_eval)
  have t: "py_add (float_lit (3 / 10)) (PyInt 1) = Inr (PyFloat (Fin (5854679515581645 / 4503599627370496)))"
    unfolding l by (simp add: call_eval round_eval)
  have dt: "py_sub (PyFloat (Fin (5854679515581645 / 4503599627370496))) (float_lit (3 / 10)) = Inr (PyFloat (Fin 1))"
    unfolding l by (simp add: call_eval round_eval)
  have g: "\<not> py_le_zero (PyFloat (Fin 1))" by simp
  have ci: "raising (py_mul (PyInt 5) (PyFloat (Fin 1))) (py_add (PyFloat (Fin 0))) = Inr (PyFloat (Fin 5))"
    by (simp add: call_eval round_eval)
  have fin: "finite_num (PyFloat (Fin 5))" by simp
  have cd: "py_truediv (PyFloat (Fin 5)) (PyFloat (Fin 1)) = Inr (PyFloat (Fin 5))"
    by (simp add: call_eval round_eval)
  have k: "equals_int (PyInt 1) 1" "equals_int (PyFloat (Fin 0)) 0" "equals_int (PyInt 0) 0"
    "equals_int (PyInt 5) 5" by simp_all
  from proportional_only_f [OF k dt g ci fin cd fin, of "Fin 0" "Fin 0"]
  have "Update_f (Fin 0) (PID_init_f (Fin 0) (PyInt 1) (PyFloat (Fin 0)) (PyInt 0) (Some (float_lit (3 / 10))))
        (PyInt 5) (Some (PyFloat (Fin (5854679515581645 / 4503599627370496))))
      = Inr (PyFloat (Fin 5),
          \<lparr>Kp_f = PyInt 1, Ki_f = PyFloat (Fin 0), Kd_f = PyInt 0,
           Cp_f = PyInt 5, Ci_f = PyFloat (Fin 5), Cd_f = PyFloat (Fin 5),
           previous_time_f = PyFloat (Fin (5854679515581645 / 4503599627370496)),
           previous_error_f = PyInt 5\<rparr>)"
    by (simp add: PID_init_f_def)
  with k l t dt g ci fin cd show ?thesis by blast
qed

text \<open>
  Claim C5 says that on a controller made at \<open>t0\<close> with gains 0, 1, 0 the calls
  \<^verbatim>\<open>Update(2, t0 + 1)\<close>, \<^verbatim>\<open>Update(2, t0 + 2)\<close> leave the accumulator 2 and then 4, and that
  the second returns 4. At \<open>t0 = 0.3\<close> the second \<open>dt\<close> is \<open>2.3 - 1.3 = 0.9999999999999998\<close>,
  and the second call leaves and returns \<open>3.9999999999999996\<close>, which is \<open>4 - 2 powi (- 51)\<close>.
\<close>

theorem integral_only_counterexample:
  "float_lit (3 / 10) = PyFloat (Fin (5404319552844595 / 18014398509481984))
   \<and> py_add (float_lit (3 / 10)) (PyInt 1) = Inr (PyFloat (Fin (5854679515581645 / 4503599627370496)))
   \<and> py_add (float_lit (3 / 10)) (PyInt 2) = Inr (PyFloat (Fin (2589569785738035 / 1125899906842624)))
   \<and> returned_and_accumulator (PID_init_f (Fin 0) (PyInt 0) (PyInt 1) (PyInt 0) (Some (float_lit (3 / 10))))
        [(Fin 0, PyInt 2, Some (PyFloat (Fin (5854679515581645 / 4503599627370496)))),
         (Fin 0, PyInt 2, Some (PyFloat (Fin (2589569785738035 / 1125899906842624))))]
      = Inr [(PyFloat (Fin 2), PyFloat (Fin 2)),
             (PyFloat (Fin (9007199254740991 / 2251799813685248)),
              PyFloat (Fin (9007199254740991 / 2251799813685248)))]
   \<and> (9007199254740991 / 2251799813685248 :: real) < 4"
  by (simp add: returned_and_accumulator_def call_eval round_eval)

text \<open>
  Claim C5, amended. On a controller made at \<open>t0\<close> with gains 0, 1, 0 (ints or floats),
  two calls with the error 2 at timestamps \<open>t1\<close>, \<open>t2\<close> for which both computed
  \<open>dt\<close>, \<open>t1 - t0\<close> and \<open>t2 - t1\<close>, are exactly 1 leave the accumulator \<open>2.0\<close> and then
  \<open>4.0\<close>, and the second call returns \<open>4.0\<close>.
\<close>

theorem integral_only_f:
  assumes "equals_int kp 0" and "equals_int ki 1" and "equals_int kd 0"
    and "equals_int err1 2" and "equals_int err2 2"
    and "py_sub t1 t0 = Inr dt1" and "equals_int dt1 1"
    and "py_sub t2 t1 = Inr dt2" and "equals_int dt2 1"
  shows "returned_and_accumulator (PID_init_f clock0 kp ki kd (Some t0))
           [(clock1, err1, Some t1), (clock2, err2, Some t2)]
         = Inr [(PyFloat (Fin 2), PyFloat (Fin 2)), (PyFloat (Fin 4), PyFloat (Fin 4))]"
  using unit_run [OF assms, of clock0 clock1 clock2] by simp

text \<open>
  A controller made at \<open>100.0\<close>, called at \<open>101.0\<close> and \<open>102.0\<close>, with the gains and the
  errors partly ints and partly floats.
\<close>

theorem integral_only_f_witness:
  "equals_int (PyInt 0) 0 \<and> equals_int (PyFloat (Fin 1)) 1 \<and> equals_int (PyFloat (Fin 0)) 0
   \<and> equals_int (PyInt 2) 2 \<and> equals_int (PyFloat (Fin 2)) 2
   \<and> py_sub (PyFloat (Fin 101)) (PyFloat (Fin 100)) = Inr (PyFloat (Fin 1))
   \<and> py_sub (PyFloat (Fin 102)) (PyFloat (Fin 101)) = Inr (PyFloat (Fin 1))
   \<and> returned_and_accumulator
        (PID_init_f (Fin 0) (PyInt 0) (PyFloat (Fin 1)) (PyFloat (Fin 0)) (Some (PyFloat (Fin 100))))
        [(Fin 0, PyInt 2, Some (PyFloat (Fin 101))), (Fin 0, PyFloat (Fin 2), Some (PyFloat (Fin 102)))]
      = Inr [(PyFloat (Fin 2), PyFloat (Fin 2)), (PyFloat (Fin 4), PyFloat (Fin 4))]"
proof -
  have k: "equals_int (PyInt 0) 0" "equals_int (PyFloat (Fin 1)) 1" "equals_int (PyFloat (Fin 0)) 0"
    "equals_int (PyInt 2) 2" "equals_int (PyFloat (Fin 2)) 2" by simp_all
  have d1: "py_sub (PyFloat (Fin 101)) (PyFloat (Fin 100)) = Inr (PyFloat (Fin 1))"
    by (simp add: call_eval round_eval)
  have d2: "py_sub (PyFloat (Fin 102)) (PyFloat (Fin 101)) = Inr (PyFloat (Fin 1))"
    by (simp add: call_eval round_eval)
  from integral_only_f [OF k d1 k(2) d2 k(2), of "Fin 0" "Fin 0" "Fin 0"] k d1 d2
  show ?thesis by blast
qed

text \<open>
  Claim C6 says that on a controller made at \<open>t0\<close> with gains 0, 0, 1 the calls
  \<^verbatim>\<open>Update(3, t0 + 1)\<close>, \<^verbatim>\<open>Update(7, t0 + 2)\<close> make the second return 4. At \<open>t0 = 0.2\<close> the
  second \<open>dt\<close> is \<open>2.2 - 1.2 = 1.0000000000000002\<close>, and the second call returns
  \<open>3.999999999999999\<close>, which is \<open>4 - 2 powi (- 50)\<close>.
\<close>

theorem derivative_only_counterexample:
  "float_lit (2 / 10) = PyFloat (Fin (3602879701896397 / 18014398509481984))
   \<and> py_add (float_lit (2 / 10)) (PyInt 1) = Inr (PyFloat (Fin (5404319552844595 / 4503599627370496)))
   \<and> py_add (float_lit (2 / 10)) (PyInt 2) = Inr (PyFloat (Fin (2476979795053773 / 1125899906842624)))
   \<and> returned_and_accumulator (PID_init_f (Fin 0) (PyInt 0) (PyInt 0) (PyInt 1) (Some (float_lit (2 / 10))))
        [(Fin 0, PyInt 3, Some (PyFloat (Fin (5404319552844595 / 4503599627370496)))),
         (Fin 0, PyInt 7, Some (PyFloat (Fin (2476979795053773 / 1125899906842624))))]
      = Inr [(PyFloat (Fin 3), PyFloat (Fin 3)),
             (PyFloat (Fin (4503599627370495 / 1125899906842624)),
              PyFloat (Fin (5629499534213121 / 562949953421312)))]
   \<and> (4503599627370495 / 1125899906842624 :: real) < 4"
  by (simp add: returned_and_accumulator_def call_eval round_eval)

text \<open>
  Claim C6, amended. On a controller made at \<open>t0\<close> with gains 0, 0, 1 (ints or floats),
  the calls \<^verbatim>\<open>Update(3, t1)\<close>, \<^verbatim>\<open>Update(7, t2)\<close> for which both computed \<open>dt\<close>,
  \<open>t1 - t0\<close> and \<open>t2 - t1\<close>, are exactly 1 make the second call return
  \<open>(7 - 3) / 1 = 4.0\<close>.
\<close>

theorem derivative_only_f:
  assumes "equals_int kp 0" and "equals_int ki 0" and "equals_int kd 1"
    and "equals_int err1 3" and "equals_int err2 7"
    and "py_sub t1 t0 = Inr dt1" and "equals_int dt1 1"
    and "py_sub t2 t1 = Inr dt2" and "equals_int dt2 1"
  shows "returned_and_accumulator (PID_init_f clock0 kp ki kd (Some t0))
           [(clock1, err1, Some t1), (clock2, err2, Some t2)]
         = Inr [(PyFloat (Fin 3), PyFloat (Fin 3)), (PyFloat (Fin 4), PyFloat (Fin 10))]"
  using unit_run [OF assms, of clock0 clock1 clock2] by simp

text \<open>
  A controller made at the int 7, called at the int 8 and at the float \<open>9.0\<close>.
\<close>

theorem derivative_only_f_witness:
  "equals_int (PyFloat (Fin 0)) 0 \<and> equals_int (PyInt 0) 0 \<and> equals_int (PyInt 1) 1
   \<and> equals_int (PyFloat (Fin 3)) 3 \<and> equals_int (PyInt 7) 7
   \<and> py_sub (PyInt 8) (PyInt 7) = Inr (PyInt 1) \<and> py_sub (PyFloat (Fin 9)) (PyInt 8) = Inr (PyFloat (Fin 1))
   \<and> equals_int (PyFloat (Fin 1)) 1
   \<and> returned_and_accumulator
        (PID_init_f (Fin 0) (PyFloat (Fin 0)) (PyInt 0) (PyInt 1) (Some (PyInt 7)))
        [(Fin 0, PyFloat (Fin 3), Some (PyInt 8)), (Fin 0, PyInt 7, Some (PyFloat (Fin 9)))]
      = Inr [(PyFloat (Fin 3), PyFloat (Fin 3)), (PyFloat (Fin 4), PyFloat (Fin 10))]"
proof -
  have k: "equals_int (PyFloat (Fin 0)) 0" "equals_int (PyInt 0) 0" "equals_int (PyInt 1) 1"
    "equals_int (PyFloat (Fin 3)) 3" "equals_int (PyInt 7) 7" by simp_all
  have d1: "py_sub (PyInt 8) (PyInt 7) = Inr (PyInt 1)" by simp
  have d2: "py_sub (PyFloat (Fin 9)) (PyInt 8) = Inr (PyFloat (Fin 1))"
    by (simp add: call_eval round_eval)
  have o: "equals_int (PyFloat (Fin 1)) 1" by simp
  from derivative_only_f [OF k d1 k(3) d2 o, of "Fin 0" "Fin 0" "Fin 0"] k d1 d2 o
  show ?thesis by blast
qed

text \<open>
  Claim C7. The constructor sets the gains \<open>Kp\<close>, \<open>Ki\<close>, \<open>Kd\<close> to its arguments, and
  no call of \<open>Update\<close> changes them: after one call on any state with any arguments, and
  after each call of any sequence of calls, the three gains are those of the state the
  calls started from.
\<close>

theorem gains_unchanged:
  "Kp (PID_init clock kp ki kd origin_time) = kp
   \<and> Ki (PID_init clock kp ki kd origin_time) = ki
   \<and> Kd (PID_init clock kp ki kd origin_time) = kd
   \<and> (\<exists>out self'. Update clock' self err current_time = Inr (out, self')
         \<and> Kp self' = Kp self \<and> Ki self' = Ki self \<and> Kd self' = Kd self)
   \<and> (\<exists>tr. run self cs = Inr tr
         \<and> list_all (\<lambda>(out, self'). Kp self' = Kp self \<and> Ki self' = Ki self \<and> Kd self' = Kd self) tr)"
proof -
  have "Kp (PID_init clock kp ki kd origin_time) = kp"
    and "Ki (PID_init clock kp ki kd origin_time) = ki"
    and "Kd (PID_init clock kp ki kd origin_time) = kd"
    by (simp_all add: PID_init_def)
  moreover have "\<exists>out self'. Update clock' self err current_time = Inr (out, self')
         \<and> Kp self' = Kp self \<and> Ki self' = Ki self \<and> Kd self' = Kd self"
    using Update_Inr Update_gains by blast
  ultimately show ?thesis using run_gains by blast
qed






text \<open>
  Claim C10. With a given timestamp \<open>Update\<close> is deterministic: on two controllers
  with equal fields and with equal error and timestamp arguments, the two calls return
  the same correction and leave equal fields, whatever the wall clock reads at either
  call. The clock matters only when the timestamp is omitted, where the call is the one
  with the clock's reading as timestamp.
\<close>

theorem Update_deterministic:
  assumes "Kp a = Kp b" "Ki a = Ki b" "Kd a = Kd b" "Cp a = Cp b" "Ci a = Ci b" "Cd a = Cd b"
    "previous_time a = previous_time b" "previous_error a = previous_error b"
  shows "Update clock1 a err (Some t) = Update clock2 b err (Some t)
       \<and> Update clock1 a err None = Update clock2 b err (Some clock1)"
proof -
  have "a = b" using assms by simp
  then show ?thesis by (simp add: Update_def)
qed

text \<open>
  Two controllers with gains 2, 3, 4, made with the origin 10 under different clocks
  and called with \<open>Update(6, 12)\<close> under different clocks.
\<close>

theorem Update_deterministic_witness:
  "Update 100 (PID_init 0 2 3 4 (Some 10)) 6 (Some 12) = Update 200 (PID_init 50 2 3 4 (Some 10)) 6 (Some 12)
   \<and> Update 100 (PID_init 0 2 3 4 (Some 10)) 6 (Some 12) = Inr (60, \<lparr>Kp = 2, Ki = 3, Kd = 4, Cp = 6, Ci = 12, Cd = 3,
          previous_time = 12, previous_error = 6\<rparr>)"
proof -
  have "Update 100 (PID_init 0 2 3 4 (Some 10)) 6 (Some 12) = Update 200 (PID_init 50 2 3 4 (Some 10)) 6 (Some 12)"
    using Update_deterministic [of "PID_init 0 2 3 4 (Some 10)" "PID_init 50 2 3 4 (Some 10)" 100 6 12 200]
    by (simp add: PID_init_def)
  moreover have "Update 100 (PID_init 0 2 3 4 (Some 10)) 6 (Some 12) = Inr (60, \<lparr>Kp = 2, Ki = 3, Kd = 4, Cp = 6, Ci = 12, Cd = 3,
          previous_time = 12, previous_error = 6\<rparr>)"
    by (subst Update_explicit_step) (simp_all add: PID_init_def)
  ultimately show ?thesis by simp
qed

end
